theory Spec2Isabelle
  imports Main "HOL-Library.Sublist"
begin

section \<open>Frames, stacks and stack sets (stack.go)\<close>

text \<open>
  A \<^verbatim>\<open>runtime.Frame\<close> as this package reads it: the package only ever looks at the
  fields \<^verbatim>\<open>Function\<close>, \<^verbatim>\<open>File\<close> and \<^verbatim>\<open>Line\<close>. \<^verbatim>\<open>Line\<close> is a Go \<^verbatim>\<open>int\<close>; the package
  compares it, prints it and sets it from a parsed number, and does no arithmetic on
  it, so it is an unbounded integer here.
  \<^verbatim>\<open>type Stack []runtime.Frame\<close> and \<^verbatim>\<open>type Stacks []Stack\<close>: index 0 is the
  innermost frame, respectively the most recent stack.
\<close>

record frame =
  Function :: string
  File :: string
  Line :: int

type_synonym Stack = "frame list"
type_synonym Stacks = "Stack list"

subsection \<open>IsParentOf\<close>

text \<open>
  The loop \<^verbatim>\<open>for offset := 1; offset <= len(parent); offset++\<close> of
  \<^verbatim>\<open>Stack.IsParentOf\<close>. Both index expressions are in range whenever the loop body
  runs: the guard before the loop gives \<^verbatim>\<open>len(parent) <= len(child)\<close>.
\<close>

function IsParentOf_loop :: "Stack \<Rightarrow> Stack \<Rightarrow> nat \<Rightarrow> bool" where
  "IsParentOf_loop parent child offset =
     (if offset \<le> length parent then
        (let pFrame = parent ! (length parent - offset);
             cFrame = child ! (length child - offset)
         in if Function pFrame \<noteq> Function cFrame \<or> File pFrame \<noteq> File cFrame
               \<or> Line pFrame < Line cFrame
            then False
            else if offset \<noteq> length parent \<and> Line pFrame \<noteq> Line cFrame
            then False
            else IsParentOf_loop parent child (offset + 1))
      else True)"
  by pat_completeness auto
termination
  by (relation "measure (\<lambda>(parent, child, offset). Suc (length parent) - offset)") auto

definition IsParentOf :: "Stack \<Rightarrow> Stack \<Rightarrow> bool" where
  "IsParentOf parent child =
     (if length child < length parent then False else IsParentOf_loop parent child 1)"

text \<open>
  What one position of the walk demands, in the words of the specification: at distance
  \<open>d\<close> from the outer end, function and file agree; the line agrees exactly, except at
  the innermost frame of the parent (\<open>d = length parent\<close>), where the parent's line must
  not be smaller than the child's.
\<close>

definition position_ok :: "Stack \<Rightarrow> Stack \<Rightarrow> nat \<Rightarrow> bool" where
  "position_ok parent child d =
     (Function (parent ! (length parent - d)) = Function (child ! (length child - d)) \<and>
      File (parent ! (length parent - d)) = File (child ! (length child - d)) \<and>
      (if d = length parent
       then Line (child ! (length child - d)) \<le> Line (parent ! (length parent - d))
       else Line (parent ! (length parent - d)) = Line (child ! (length child - d))))"

subsection \<open>RemoveParents\<close>

text \<open>
  The inner loop \<^verbatim>\<open>for j := i + 1; j < len(s); j++\<close> of \<^verbatim>\<open>Stacks.RemoveParents\<close>: whether
  \<open>stack\<close> is a parent of one of the stacks after it; \<open>later\<close> is \<^verbatim>\<open>s[i+1:]\<close>.
\<close>

fun hasChild :: "Stack \<Rightarrow> Stacks \<Rightarrow> bool" where
  "hasChild stack [] = False"
| "hasChild stack (c # later) = (if IsParentOf stack c then True else hasChild stack later)"

fun RemoveParents :: "Stacks \<Rightarrow> Stacks" where
  "RemoveParents [] = []"
| "RemoveParents (stack # later) =
     (if \<not> hasChild stack later then stack # RemoveParents later else RemoveParents later)"

subsection \<open>Trimming and formatting\<close>

definition newline :: char where "newline = CHR 0x0A"
definition tab :: char where "tab = CHR 0x09"
definition carriageReturn :: char where "carriageReturn = CHR 0x0D"

text \<open>\<^verbatim>\<open>const stackDivider\<close> of error.go: 38 equals signs.\<close>

definition stackDivider :: string where
  "stackDivider = ''======================================''"

text \<open>\<^verbatim>\<open>strings.HasPrefix(s, prefix)\<close>.\<close>

definition HasPrefix :: "string \<Rightarrow> string \<Rightarrow> bool" where
  "HasPrefix s pre = (take (length pre) s = pre)"

text \<open>
  \<^verbatim>\<open>Stack.trimStack\<close>: \<open>trimStack_loop s n\<close> is the loop started with
  \<^verbatim>\<open>lastFrameIdx = n - 1\<close>, and its value is the final \<^verbatim>\<open>lastFrameIdx + 1\<close>.
\<close>

fun trimStack_loop :: "Stack \<Rightarrow> nat \<Rightarrow> nat" where
  "trimStack_loop s 0 = 0"
| "trimStack_loop s (Suc i) =
     (if HasPrefix (Function (s ! i)) ''runtime.'' then trimStack_loop s i else Suc i)"

definition trimStack :: "Stack \<Rightarrow> Stack" where
  "trimStack s = take (trimStack_loop s (length s)) s"

text \<open>The verb \<^verbatim>\<open>%d\<close> of \<^verbatim>\<open>fmt.Sprintf\<close> on an \<^verbatim>\<open>int\<close>: decimal, with a minus sign.\<close>

function decimal :: "nat \<Rightarrow> string" where
  "decimal n =
     (if n < 10 then [''0123456789'' ! n] else decimal (n div 10) @ [''0123456789'' ! (n mod 10)])"
  by pat_completeness auto
termination
  by (relation "measure id") auto

definition fmt_d :: "int \<Rightarrow> string" where
  "fmt_d i = (if i < 0 then CHR ''-'' # decimal (nat (- i)) else decimal (nat i))"

text \<open>\<^verbatim>\<open>fmt.Sprintf("%s\n\t%s:%d", frame.Function, frame.File, frame.Line)\<close>.\<close>

definition frameText :: "frame \<Rightarrow> string" where
  "frameText fr = Function fr @ [newline, tab] @ File fr @ '':'' @ fmt_d (Line fr)"

text \<open>
  \<^verbatim>\<open>Stack.Format\<close>: \<open>Stack_Format_loop ts i res\<close> runs the \<^verbatim>\<open>range\<close> loop over \<open>ts\<close>
  from index \<open>i\<close> with the text built so far.
\<close>

function Stack_Format_loop :: "Stack \<Rightarrow> nat \<Rightarrow> string \<Rightarrow> string" where
  "Stack_Format_loop ts i res =
     (if i < length ts then
        (let res1 = res @ frameText (ts ! i);
             res2 = (if int i \<noteq> int (length ts) - 1 then res1 @ [newline] else res1)
         in Stack_Format_loop ts (i + 1) res2)
      else res)"
  by pat_completeness auto
termination
  by (relation "measure (\<lambda>(ts, i, res). length ts - i)") auto

definition Stack_Format :: "Stack \<Rightarrow> string" where
  "Stack_Format s = Stack_Format_loop (trimStack s) 0 []"

text \<open>\<^verbatim>\<open>Stacks.Format\<close>, the same way.\<close>

function Stacks_Format_loop :: "Stacks \<Rightarrow> nat \<Rightarrow> string \<Rightarrow> string" where
  "Stacks_Format_loop s i ret =
     (if i < length s then
        (let ret1 = ret @ Stack_Format (s ! i) @ [newline] @ stackDivider;
             ret2 = (if int i \<noteq> int (length s) - 1 then ret1 @ [newline] else ret1)
         in Stacks_Format_loop s (i + 1) ret2)
      else ret)"
  by pat_completeness auto
termination
  by (relation "measure (\<lambda>(s, i, ret). length s - i)") auto

definition Stacks_Format :: "Stacks \<Rightarrow> string" where
  "Stacks_Format s = Stacks_Format_loop s 0 (stackDivider @ [newline])"

subsection \<open>Structured encoding\<close>

text \<open>
  The bytes that \<^verbatim>\<open>encoding/json\<close> writes are represented by the JSON value they
  denote: the encoder itself is a collaborator of this package.
\<close>

datatype json =
    JNull
  | JBool bool
  | JNumber int
  | JString string
  | JArray "json list"
  | JObject "(string \<times> json) list"

text \<open>
  \<^verbatim>\<open>Stack.MarshalJSON\<close>: the local struct \<^verbatim>\<open>jsonFrame\<close> with its three tagged fields,
  one per frame of the trimmed stack, handed to \<^verbatim>\<open>json.Marshal\<close>.
\<close>

definition jsonFrame :: "frame \<Rightarrow> json" where
  "jsonFrame fr =
     JObject [(''function'', JString (Function fr)),
              (''file'', JString (File fr)),
              (''line'', JNumber (Line fr))]"

definition Stack_MarshalJSON :: "Stack \<Rightarrow> json" where
  "Stack_MarshalJSON s = JArray (map jsonFrame (trimStack s))"

text \<open>
  \<^verbatim>\<open>json.Marshal\<close> of a \<^verbatim>\<open>Stacks\<close> value (\<^verbatim>\<open>FormatStacksJson\<close>): \<^verbatim>\<open>Stacks\<close> has no
  marshalling method of its own, so it is the array of its elements, each of which is
  encoded by \<^verbatim>\<open>Stack.MarshalJSON\<close>. This is the encoding of a \<^verbatim>\<open>Stacks\<close> that is not
  \<^verbatim>\<open>nil\<close>: a list does not tell a \<^verbatim>\<open>nil\<close> slice from an empty one, and the library
  encodes a \<^verbatim>\<open>nil\<close> slice as \<^verbatim>\<open>null\<close>.
\<close>

definition Stacks_json :: "Stacks \<Rightarrow> json" where
  "Stacks_json s = JArray (map Stack_MarshalJSON s)"

subsection \<open>Parsing\<close>

text \<open>
  \<^verbatim>\<open>strings.ReplaceAll(s, old, new)\<close> and \<^verbatim>\<open>strings.Split(s, sep)\<close> for a non-empty
  \<open>old\<close>, respectively \<open>sep\<close> (the package passes the literals \<^verbatim>\<open>"\r"\<close>, \<^verbatim>\<open>"\r\n"\<close>
  and \<^verbatim>\<open>"\n\n"\<close>): occurrences are found from the left and do not overlap.
\<close>

function ReplaceAll :: "string \<Rightarrow> string \<Rightarrow> string \<Rightarrow> string" where
  "ReplaceAll s old new =
     (if s = [] \<or> old = [] then s
      else if HasPrefix s old then new @ ReplaceAll (drop (length old) s) old new
      else hd s # ReplaceAll (tl s) old new)"
  by pat_completeness auto
termination
  by (relation "measure (\<lambda>(s, old, new). length s)") auto

text \<open>\<open>Split_loop s sep cur\<close>: \<open>cur\<close> is the piece read since the last separator.\<close>

function Split_loop :: "string \<Rightarrow> string \<Rightarrow> string \<Rightarrow> string list" where
  "Split_loop s sep cur =
     (if s = [] \<or> sep = [] then [cur @ s]
      else if HasPrefix s sep then cur # Split_loop (drop (length sep) s) sep []
      else Split_loop (tl s) sep (cur @ [hd s]))"
  by pat_completeness auto
termination
  by (relation "measure (\<lambda>(s, sep, cur). length s)") auto

definition Split :: "string \<Rightarrow> string \<Rightarrow> string list" where
  "Split s sep = Split_loop s sep []"

text \<open>\<^verbatim>\<open>strings.Join(elems, sep)\<close>, used to state what the formatting loops build.\<close>

fun joinWith :: "string \<Rightarrow> string list \<Rightarrow> string" where
  "joinWith sep [] = []"
| "joinWith sep [x] = x"
| "joinWith sep (x # y # ys) = x @ sep @ joinWith sep (y # ys)"

text \<open>
  The regular expression \<^verbatim>\<open>consoleStackRegexp\<close>,
  \<^verbatim>\<open>(?m)^[ \t]*([^\n]+)\n[ \t]+([^\n]+):([0-9]+)[ \t]*$\<close>, as the sequence of its
  nodes. Every repetition in it is a greedy repetition of a character class:
  \<open>Repeat c m\<close> is the class \<open>c\<close> repeated at least \<open>m\<close> times (\<^verbatim>\<open>*\<close> is \<open>m = 0\<close>,
  \<^verbatim>\<open>+\<close> is \<open>m = 1\<close>), and \<open>Capture c m\<close> is the same inside a capturing group.
  With the flag \<^verbatim>\<open>(?m)\<close>, \<^verbatim>\<open>^\<close> holds at the start of the text and after a newline,
  and \<^verbatim>\<open>$\<close> at the end of the text and before a newline.
\<close>

datatype charClass = SpaceTab | NotNewline | Digit

fun inClass :: "charClass \<Rightarrow> char \<Rightarrow> bool" where
  "inClass SpaceTab c = (c = CHR '' '' \<or> c = tab)"
| "inClass NotNewline c = (c \<noteq> newline)"
| "inClass Digit c = (c \<in> set ''0123456789'')"

datatype node = BeginLine | EndLine | Literal char | Repeat charClass nat | Capture charClass nat

definition consoleStackRegexp :: "node list" where
  "consoleStackRegexp =
     [BeginLine, Repeat SpaceTab 0, Capture NotNewline 1, Literal newline,
      Repeat SpaceTab 1, Capture NotNewline 1, Literal CHR '':'', Capture Digit 1,
      Repeat SpaceTab 0, EndLine]"

text \<open>
  Go's \<^verbatim>\<open>regexp\<close> returns the match that a backtracking matcher finds first
  (leftmost-first). \<open>matchHere ns prev s\<close> matches the nodes \<open>ns\<close> at the position whose
  remaining text is \<open>s\<close> and whose preceding character is \<open>prev\<close> (\<open>None\<close> at the start of
  the text); it returns the captured groups and the text after the match.
  \<open>backtrack cap c m k ns prev s\<close> tries the repetition counts \<open>k\<close>, \<open>k - 1\<close>, ..., \<open>m\<close> in
  this order; it is first called with the longest run of the class.
\<close>

function matchHere :: "node list \<Rightarrow> char option \<Rightarrow> string \<Rightarrow> (string list \<times> string) option"
  and backtrack :: "bool \<Rightarrow> nat \<Rightarrow> nat \<Rightarrow> node list \<Rightarrow> char option \<Rightarrow> string
                      \<Rightarrow> (string list \<times> string) option" where
  "matchHere [] prev s = Some ([], s)"
| "matchHere (BeginLine # ns) prev s =
     (if prev = None \<or> prev = Some newline then matchHere ns prev s else None)"
| "matchHere (EndLine # ns) prev s =
     (if s = [] \<or> hd s = newline then matchHere ns prev s else None)"
| "matchHere (Literal c # ns) prev s =
     (if s \<noteq> [] \<and> hd s = c then matchHere ns (Some c) (tl s) else None)"
| "matchHere (Repeat c m # ns) prev s =
     backtrack False m (length (takeWhile (inClass c) s)) ns prev s"
| "matchHere (Capture c m # ns) prev s =
     backtrack True m (length (takeWhile (inClass c) s)) ns prev s"
| "backtrack cap m k ns prev s =
     (if k < m then None
      else (case matchHere ns (if k = 0 then prev else Some (s ! (k - 1))) (drop k s) of
              Some (groups, rest) \<Rightarrow> Some (if cap then take k s # groups else groups, rest)
            | None \<Rightarrow> if k = 0 then None else backtrack cap m (k - 1) ns prev s))"
  by pat_completeness auto
termination
  by (relation "measures
        [\<lambda>x. case x of Inl (ns, prev, s) \<Rightarrow> 2 * length ns
                     | Inr (cap, m, k, ns, prev, s) \<Rightarrow> 2 * length ns + 1,
         \<lambda>x. case x of Inl _ \<Rightarrow> 0 | Inr (cap, m, k, ns, prev, s) \<Rightarrow> k]") auto

text \<open>
  \<^verbatim>\<open>re.FindAllStringSubmatch(block, -1)\<close>: the successive non-overlapping matches, each
  as the list of the whole match followed by its groups. The search for the next match
  resumes where the last one ended. No match of this expression is empty (it holds at
  least a newline and a colon); were one empty, the search would move on by one
  character.
\<close>

function FindAll_from :: "node list \<Rightarrow> char option \<Rightarrow> string \<Rightarrow> string list list" where
  "FindAll_from re prev s =
     (case matchHere re prev s of
        Some (groups, rest) \<Rightarrow>
          (if length rest < length s
           then (let whole = take (length s - length rest) s
                 in (whole # groups) # FindAll_from re (Some (last whole)) rest)
           else if s = [] then [[] # groups]
           else ([] # groups) # FindAll_from re (Some (hd s)) (tl s))
      | None \<Rightarrow> if s = [] then [] else FindAll_from re (Some (hd s)) (tl s))"
  by pat_completeness auto
termination
  by (relation "measure (\<lambda>(re, prev, s). length s)") auto

definition FindAllStringSubmatch :: "node list \<Rightarrow> string \<Rightarrow> string list list" where
  "FindAllStringSubmatch re s = FindAll_from re None s"

text \<open>
  \<^verbatim>\<open>strconv.ParseInt(s, 10, 32)\<close> with its error dropped, as \<^verbatim>\<open>ParseStacks\<close> calls it. The
  argument is the group \<^verbatim>\<open>([0-9]+)\<close>, a non-empty string of digits: the value is the
  number, or \<^verbatim>\<open>1<<31 - 1\<close> when the number does not fit 32 bits (the range error);
  for any other string the result of a syntax error, 0.
\<close>

definition digitValue :: "char \<Rightarrow> int" where
  "digitValue c = of_char c - 48"

definition ParseInt_10_32 :: "string \<Rightarrow> int" where
  "ParseInt_10_32 s =
     (if s = [] \<or> \<not> list_all (inClass Digit) s then 0
      else min (foldl (\<lambda>n c. 10 * n + digitValue c) 0 s) 2147483647)"

text \<open>
  \<^verbatim>\<open>json.Unmarshal([]byte(s), &stacks)\<close> belongs to the standard library; \<^verbatim>\<open>ParseStacks\<close>
  takes its outcome as a parameter: for the text \<open>s\<close>, whether the returned error is
  \<^verbatim>\<open>nil\<close>, and the value the variable \<^verbatim>\<open>stacks\<close> holds after the call.
\<close>

type_synonym unmarshal = "string \<Rightarrow> bool \<times> Stacks"

text \<open>The test \<^verbatim>\<open>err == nil\<close> and the nested \<^verbatim>\<open>if\<close> of lines 200 and 201.\<close>

definition jsonAccepted :: "bool \<times> Stacks \<Rightarrow> bool" where
  "jsonAccepted r =
     (fst r \<and> length (snd r) > 0 \<and> length (snd r ! 0) > 0 \<and> File (snd r ! 0 ! 0) \<noteq> [])"

definition frameOfMatch :: "string list \<Rightarrow> frame" where
  "frameOfMatch m = \<lparr>Function = m ! 1, File = m ! 2, Line = ParseInt_10_32 (m ! 3)\<rparr>"

text \<open>The loop over the blocks; \<open>stacks\<close> is the variable the loop appends to.\<close>

fun parseBlocks :: "string list \<Rightarrow> Stacks \<Rightarrow> Stacks" where
  "parseBlocks [] stacks = stacks"
| "parseBlocks (block # blocks) stacks =
     (let matches = FindAllStringSubmatch consoleStackRegexp block
      in if length matches = 0 then parseBlocks blocks stacks
         else parseBlocks blocks (stacks @ [map frameOfMatch matches]))"

definition normalizeLineEndings :: "string \<Rightarrow> string" where
  "normalizeLineEndings s =
     ReplaceAll (ReplaceAll s [carriageReturn] []) [carriageReturn, newline] [newline]"

definition ParseStacks :: "unmarshal \<Rightarrow> string \<Rightarrow> Stacks" where
  "ParseStacks json_Unmarshal s =
     (let r = json_Unmarshal s; stacks = snd r
      in if jsonAccepted r then stacks
         else parseBlocks (Split (normalizeLineEndings s) [newline, newline]) stacks)"

text \<open>
  Lines 206 to 224 on their own: the stacks that the console-format parse finds in a text,
  appended to an empty \<^verbatim>\<open>stacks\<close>.
\<close>

definition consoleStacks :: "string \<Rightarrow> Stacks" where
  "consoleStacks s = parseBlocks (Split (normalizeLineEndings s) [newline, newline]) []"

subsection \<open>The specification's wording, for comparison\<close>

text \<open>
  The human-readable encoding as the specification words it: every stack between a
  pair of dividers of its own, and a blank line between consecutive stacks.
\<close>

definition spec_Stacks_Format :: "Stacks \<Rightarrow> string" where
  "spec_Stacks_Format ss =
     joinWith [newline, newline]
       (map (\<lambda>s. stackDivider @ [newline] @ Stack_Format s @ [newline] @ stackDivider) ss)"

text \<open>
  The acceptance test as the specification words it: the decode succeeds and yields at
  least one stack with at least one frame whose file is not empty.
\<close>

definition spec_jsonAccepted :: "bool \<times> Stacks \<Rightarrow> bool" where
  "spec_jsonAccepted r =
     (fst r \<and> (\<exists>stack \<in> set (snd r). \<exists>fr \<in> set stack. File fr \<noteq> []))"

section \<open>Wrapped errors (error.go)\<close>

text \<open>The values of type \<^verbatim>\<open>any\<close> that a metadata mapping holds.\<close>

datatype any = AnyNil | AnyBool bool | AnyInt int | AnyString string

text \<open>
  A non-nil value of the interface \<^verbatim>\<open>error\<close> is either a \<^verbatim>\<open>*stackError\<close> or a value of
  some other type. Of another type the package uses three things: its message, the stack
  that \<^verbatim>\<open>uintptrToFrames\<close> makes of its \<^verbatim>\<open>StackTrace()\<close> when the type implements
  \<^verbatim>\<open>stackTracer\<close> (\<open>None\<close> when it does not), and the error \<^verbatim>\<open>errors.Unwrap\<close> returns
  for it (\<open>None\<close> for \<^verbatim>\<open>nil\<close>). A \<^verbatim>\<open>nil\<close> error is \<open>None :: goerror option\<close>.
  The chains of \<^verbatim>\<open>Unwrap\<close> modelled are the finite ones.
\<close>

datatype goerror =
    OtherError string "Stack option" "goerror option"
  | StackErrorPtr stackError
and stackError =
    StackErrorStruct (Err: "goerror option") (StackTraces: Stacks)
                     (MetaFields: "string \<rightharpoonup> any")

fun isStackError :: "goerror option \<Rightarrow> bool" where
  "isStackError (Some (StackErrorPtr se)) = True"
| "isStackError _ = False"

text \<open>The in-place capability \<^verbatim>\<open>InPlaceEditError\<close>: each method returns the updated object.\<close>

definition WithInPlace :: "stackError \<Rightarrow> (string \<rightharpoonup> any) \<Rightarrow> stackError" where
  "WithInPlace se keyValuePairs =
     StackErrorStruct (Err se) (StackTraces se) (MetaFields se ++ keyValuePairs)"

definition SetError :: "stackError \<Rightarrow> goerror option \<Rightarrow> stackError" where
  "SetError se err = StackErrorStruct err (StackTraces se) (MetaFields se)"

definition SetStacks :: "stackError \<Rightarrow> Stacks \<Rightarrow> stackError" where
  "SetStacks se stacks = StackErrorStruct (Err se) stacks (MetaFields se)"

subsection \<open>Capturing the current stack\<close>

text \<open>
  The host runtime: \<open>rt n\<close> are the frames that \<^verbatim>\<open>runtime.Callers(n, s)\<close> and
  \<^verbatim>\<open>uintptrToFrames\<close> give at the place of the call. A skip count is a Go \<^verbatim>\<open>int\<close> that
  the package only adds small constants to and hands to the runtime; it is an
  unbounded integer here.
\<close>

type_synonym runtime = "int \<Rightarrow> Stack"

definition StackTraceWithSkippedFrames :: "runtime \<Rightarrow> int \<Rightarrow> Stack" where
  "StackTraceWithSkippedFrames rt skippedFrames = rt (2 + skippedFrames)"

subsection \<open>The wrapping engine\<close>

text \<open>
  The loop \<^verbatim>\<open>for unwrapped != nil\<close> of \<^verbatim>\<open>new\<close>, with the variables \<^verbatim>\<open>allStacks\<close> and
  \<^verbatim>\<open>allFields\<close>. A key of a \<^verbatim>\<open>stackError\<close> is added only when \<^verbatim>\<open>allFields\<close> does not
  hold it yet; the loop ends at the first \<^verbatim>\<open>stackError\<close> (\<^verbatim>\<open>break\<close>).
\<close>

fun walk :: "goerror option \<Rightarrow> Stacks \<Rightarrow> (string \<rightharpoonup> any) \<Rightarrow> Stacks \<times> (string \<rightharpoonup> any)" where
  "walk None allStacks allFields = (allStacks, allFields)"
| "walk (Some (StackErrorPtr serr)) allStacks allFields =
     (allStacks @ StackTraces serr,
      (\<lambda>k. case allFields k of Some v \<Rightarrow> Some v | None \<Rightarrow> MetaFields serr k))"
| "walk (Some (OtherError msg tr w)) allStacks allFields =
     walk w (case tr of Some stack \<Rightarrow> allStacks @ [stack] | None \<Rightarrow> allStacks) allFields"

text \<open>
  Lines 234 to 241: which stacks go in front of the accumulated ones. The first
  component lists the calls of \<^verbatim>\<open>StackTraceWithSkippedFrames\<close> made, by their argument.
\<close>

definition selectStacks ::
  "runtime \<Rightarrow> int \<Rightarrow> bool \<Rightarrow> Stacks \<Rightarrow> Stacks \<Rightarrow> int list \<times> Stacks" where
  "selectStacks rt skippedFrames addStackToExisting newStacks allStacks =
     (if length newStacks > 0 then ([], newStacks @ allStacks)
      else if length allStacks = 0 \<or> addStackToExisting
      then ([1 + skippedFrames],
            [StackTraceWithSkippedFrames rt (1 + skippedFrames)] @ allStacks)
      else ([], allStacks))"

text \<open>Lines 243 to 246.\<close>

definition distinctStacks :: "Stacks \<Rightarrow> Stacks" where
  "distinctStacks allStacks =
     (if length allStacks > 1 then RemoveParents allStacks else allStacks)"

text \<open>
  \<^verbatim>\<open>new\<close>: the captures made, and the \<^verbatim>\<open>Error\<close> returned (\<open>None\<close> for \<^verbatim>\<open>nil\<close>).
\<close>

definition new ::
  "runtime \<Rightarrow> goerror option \<Rightarrow> int \<Rightarrow> bool \<Rightarrow> Stacks \<Rightarrow> int list \<times> stackError option" where
  "new rt err skippedFrames addStackToExisting newStacks =
     (case err of
        None \<Rightarrow> ([], None)
      | Some e \<Rightarrow>
          (let (walked, allFields) = walk err [] Map.empty;
               (captures, selected) =
                  selectStacks rt skippedFrames addStackToExisting newStacks walked;
               allStacks = distinctStacks selected
           in (case e of
                 StackErrorPtr serr \<Rightarrow>
                   (captures, Some (StackErrorStruct (Err serr) allStacks allFields))
               | OtherError msg tr w \<Rightarrow>
                   (captures, Some (StackErrorStruct err allStacks allFields)))))"

subsection \<open>The entry points\<close>

text \<open>
  \<^verbatim>\<open>fmt.Errorf\<close> builds an error that is no \<^verbatim>\<open>stackError\<close> and no \<^verbatim>\<open>stackTracer\<close>: its
  formatted message, and the operand of a single \<^verbatim>\<open>%w\<close> as the error it unwraps to.
\<close>

definition fmt_Errorf :: "string \<Rightarrow> goerror option \<Rightarrow> goerror" where
  "fmt_Errorf msg w = OtherError msg None w"

text \<open>What \<^verbatim>\<open>recover()\<close> may return: \<^verbatim>\<open>nil\<close>, an error, or another value (by its \<^verbatim>\<open>%v\<close> text).\<close>

datatype recovered = RecoveredNil | RecoveredError goerror | RecoveredValue string

definition FromRecover :: "runtime \<Rightarrow> recovered \<Rightarrow> int list \<times> stackError option" where
  "FromRecover rt r =
     (case r of
        RecoveredNil \<Rightarrow> ([], None)
      | RecoveredError e \<Rightarrow> new rt (Some e) 3 True []
      | RecoveredValue v \<Rightarrow> new rt (Some (fmt_Errorf v None)) 3 True [])"

definition Wrap :: "runtime \<Rightarrow> goerror option \<Rightarrow> int list \<times> stackError option" where
  "Wrap rt err = new rt err 1 True []"

definition WrapWithFrameSkips ::
  "runtime \<Rightarrow> goerror option \<Rightarrow> int \<Rightarrow> int list \<times> stackError option" where
  "WrapWithFrameSkips rt err skippedFrames = new rt err (1 + skippedFrames) True []"

definition WrapWithStack ::
  "runtime \<Rightarrow> goerror option \<Rightarrow> Stack \<Rightarrow> int list \<times> stackError option" where
  "WrapWithStack rt err stack = new rt err 1 True [stack]"

definition WrapWithoutExtraStack :: "runtime \<Rightarrow> goerror option \<Rightarrow> int list \<times> stackError option" where
  "WrapWithoutExtraStack rt err = new rt err 1 False []"

definition WrapWithFrameSkipsWithoutExtraStack ::
  "runtime \<Rightarrow> goerror option \<Rightarrow> int \<Rightarrow> int list \<times> stackError option" where
  "WrapWithFrameSkipsWithoutExtraStack rt err skippedFrames =
     new rt err (1 + skippedFrames) False []"

definition Errorf :: "runtime \<Rightarrow> string \<Rightarrow> goerror option \<Rightarrow> int list \<times> stackError option" where
  "Errorf rt msg w = new rt (Some (fmt_Errorf msg w)) 1 True []"

text \<open>
  Nested calls of the entry points: each call wraps the error the call before it
  returned, in the runtime state of its own call site.
\<close>

datatype entry =
    CallWrap
  | CallWrapWithFrameSkips int
  | CallWrapWithStack Stack
  | CallWrapWithoutExtraStack
  | CallWrapWithFrameSkipsWithoutExtraStack int
  | CallErrorf string
  | CallFromRecover

fun callEntry :: "runtime \<Rightarrow> entry \<Rightarrow> goerror \<Rightarrow> int list \<times> stackError option" where
  "callEntry rt CallWrap e = Wrap rt (Some e)"
| "callEntry rt (CallWrapWithFrameSkips n) e = WrapWithFrameSkips rt (Some e) n"
| "callEntry rt (CallWrapWithStack stack) e = WrapWithStack rt (Some e) stack"
| "callEntry rt CallWrapWithoutExtraStack e = WrapWithoutExtraStack rt (Some e)"
| "callEntry rt (CallWrapWithFrameSkipsWithoutExtraStack n) e =
     WrapWithFrameSkipsWithoutExtraStack rt (Some e) n"
| "callEntry rt (CallErrorf msg) e = Errorf rt msg (Some e)"
| "callEntry rt CallFromRecover e = FromRecover rt (RecoveredError e)"

fun nestedCalls :: "(runtime \<times> entry) list \<Rightarrow> goerror \<Rightarrow> goerror option" where
  "nestedCalls [] e = Some e"
| "nestedCalls ((rt, c) # cs) e =
     (case snd (callEntry rt c e) of
        None \<Rightarrow> None
      | Some r \<Rightarrow> nestedCalls cs (StackErrorPtr r))"

text \<open>
  The error an entry point hands to \<^verbatim>\<open>new\<close>: the error it was given, except for \<^verbatim>\<open>Errorf\<close>,
  which hands over the error \<^verbatim>\<open>fmt.Errorf\<close> has built around it.
\<close>

definition entryArgument :: "entry \<Rightarrow> goerror \<Rightarrow> goerror" where
  "entryArgument c e = (case c of CallErrorf msg \<Rightarrow> fmt_Errorf msg (Some e) | _ \<Rightarrow> e)"

subsection \<open>Structured encoding of a wrapped error\<close>

text \<open>
  \<^verbatim>\<open>json.Marshal(v)\<close> for a value whose type implements \<^verbatim>\<open>json.Marshaler\<close>: the encoder
  calls the method \<^verbatim>\<open>MarshalJSON\<close> of \<open>v\<close> and returns what it returns. \<open>None\<close> stands
  for a call that does not return.
\<close>

definition json_Marshal_Marshaler :: "('a \<Rightarrow> json option) \<Rightarrow> 'a \<Rightarrow> json option" where
  "json_Marshal_Marshaler marshalJSON v = marshalJSON v"

text \<open>
  \<^verbatim>\<open>json.Unmarshal(data, v)\<close> for a \<open>v\<close> whose type implements \<^verbatim>\<open>json.Unmarshaler\<close>: a
  text that is not valid JSON is refused (an error, \<open>v\<close> unchanged); for a valid one the
  decoder calls the method \<^verbatim>\<open>UnmarshalJSON\<close> of \<open>v\<close> with it. The result is whether the
  error is \<^verbatim>\<open>nil\<close>, and the object afterwards. Validity is the library's, a parameter.
\<close>

definition json_Unmarshal_Unmarshaler ::
  "(string \<Rightarrow> bool) \<Rightarrow> ('a \<Rightarrow> string \<Rightarrow> (bool \<times> 'a) option) \<Rightarrow> string \<Rightarrow> 'a
     \<Rightarrow> (bool \<times> 'a) option" where
  "json_Unmarshal_Unmarshaler valid unmarshalJSON data v =
     (if \<not> valid data then Some (False, v) else unmarshalJSON v data)"

lemma json_Marshal_Marshaler_mono [partial_function_mono]:
  "mono_option (\<lambda>f. json_Marshal_Marshaler f v)"
  unfolding json_Marshal_Marshaler_def by (rule call_mono)

lemma json_Unmarshal_Unmarshaler_mono [partial_function_mono]:
  assumes "\<And>v data. mono_option (\<lambda>f. U f v data)"
  shows "mono_option (\<lambda>f. json_Unmarshal_Unmarshaler valid (U f) data v)"
  unfolding json_Unmarshal_Unmarshaler_def
  by (intro partial_function_mono assms)

text \<open>
  \<^verbatim>\<open>stackError.MarshalJSON\<close> is \<^verbatim>\<open>return json.Marshal(se)\<close>, and \<^verbatim>\<open>*stackError\<close> implements
  \<^verbatim>\<open>json.Marshaler\<close> by this very method; \<^verbatim>\<open>stackError.UnmarshalJSON\<close> is
  \<^verbatim>\<open>return json.Unmarshal(data, se)\<close>, and \<^verbatim>\<open>*stackError\<close> implements \<^verbatim>\<open>json.Unmarshaler\<close>
  by this very method.
\<close>

partial_function (option) stackError_MarshalJSON :: "stackError \<Rightarrow> json option" where
  "stackError_MarshalJSON se = json_Marshal_Marshaler stackError_MarshalJSON se"

partial_function (option) stackError_UnmarshalJSON ::
  "(string \<Rightarrow> bool) \<Rightarrow> stackError \<Rightarrow> string \<Rightarrow> (bool \<times> stackError) option" where
  "stackError_UnmarshalJSON valid se data =
     json_Unmarshal_Unmarshaler valid (stackError_UnmarshalJSON valid) data se"

text \<open>
  The lifecycle invariant on one error value: a \<^verbatim>\<open>stackError\<close> does not hold a
  \<^verbatim>\<open>stackError\<close> as its \<^verbatim>\<open>Err\<close>; an error of another type satisfies it.
\<close>

definition flattened :: "goerror \<Rightarrow> bool" where
  "flattened e =
     (case e of StackErrorPtr se \<Rightarrow> \<not> isStackError (Err se) | OtherError msg tr w \<Rightarrow> True)"

section \<open>Example values\<close>

text \<open>The stacks of the specification's scenario B.\<close>

definition scenario_parent :: Stack where
  "scenario_parent =
     [\<lparr>Function = ''f'', File = ''a.go'', Line = 10\<rparr>,
      \<lparr>Function = ''main'', File = ''a.go'', Line = 5\<rparr>]"

definition scenario_child :: Stack where
  "scenario_child =
     [\<lparr>Function = ''g'', File = ''b.go'', Line = 20\<rparr>,
      \<lparr>Function = ''f'', File = ''a.go'', Line = 10\<rparr>,
      \<lparr>Function = ''main'', File = ''a.go'', Line = 5\<rparr>]"

text \<open>Two frames, for stack sets of one-frame stacks.\<close>

definition frameF :: frame where
  "frameF = \<lparr>Function = ''f'', File = ''a.go'', Line = 10\<rparr>"

definition frameG :: frame where
  "frameG = \<lparr>Function = ''g'', File = ''b.go'', Line = 20\<rparr>"

text \<open>A plain error, a runtime whose every capture is one frame, and a wrapped error.\<close>

definition boom :: goerror where
  "boom = OtherError ''boom'' None None"

definition mainRuntime :: runtime where
  "mainRuntime = (\<lambda>n. [\<lparr>Function = ''main.main'', File = ''main.go'', Line = 7\<rparr>])"

definition wrappedBoom :: stackError where
  "wrappedBoom =
     StackErrorStruct (Some boom)
       [[\<lparr>Function = ''main.main'', File = ''main.go'', Line = 7\<rparr>]] Map.empty"

section \<open>Properties of IsParentOf\<close>

declare IsParentOf_loop.simps [simp del]

lemma IsParentOf_loop_iff:
  "IsParentOf_loop parent child offset \<longleftrightarrow>
     (\<forall>d. offset \<le> d \<and> d \<le> length parent \<longrightarrow> position_ok parent child d)"
proof (induction parent child offset rule: IsParentOf_loop.induct)
  case (1 parent child offset)
  show ?case
  proof (cases "offset \<le> length parent")
    case False
    then show ?thesis
      by (subst IsParentOf_loop.simps) auto
  next
    case True
    show ?thesis
    proof (cases "position_ok parent child offset")
      case False
      then have "\<not> IsParentOf_loop parent child offset"
        using True
        by (subst IsParentOf_loop.simps) (auto simp: position_ok_def Let_def split: if_splits)
      moreover have "\<not> (\<forall>d. offset \<le> d \<and> d \<le> length parent \<longrightarrow> position_ok parent child d)"
        using False True by auto
      ultimately show ?thesis by simp
    next
      case ok: True
      then have "IsParentOf_loop parent child offset = IsParentOf_loop parent child (offset + 1)"
        using True
        by (subst IsParentOf_loop.simps) (auto simp: position_ok_def Let_def split: if_splits)
      also have "\<dots> \<longleftrightarrow> (\<forall>d. offset + 1 \<le> d \<and> d \<le> length parent \<longrightarrow> position_ok parent child d)"
        using "1.IH" [OF True refl refl] ok True
        by (auto simp: position_ok_def Let_def split: if_splits)
      also have "\<dots> \<longleftrightarrow> (\<forall>d. offset \<le> d \<and> d \<le> length parent \<longrightarrow> position_ok parent child d)"
      proof
        assume h: "\<forall>d. offset + 1 \<le> d \<and> d \<le> length parent \<longrightarrow> position_ok parent child d"
        show "\<forall>d. offset \<le> d \<and> d \<le> length parent \<longrightarrow> position_ok parent child d"
        proof (intro allI impI)
          fix d assume "offset \<le> d \<and> d \<le> length parent"
          then have "d = offset \<or> (offset + 1 \<le> d \<and> d \<le> length parent)" by arith
          then show "position_ok parent child d" using ok h by blast
        qed
      next
        assume "\<forall>d. offset \<le> d \<and> d \<le> length parent \<longrightarrow> position_ok parent child d"
        then show "\<forall>d. offset + 1 \<le> d \<and> d \<le> length parent \<longrightarrow> position_ok parent child d"
          by simp
      qed
      finally show ?thesis .
    qed
  qed
qed

lemma IsParentOf_iff:
  "IsParentOf parent child \<longleftrightarrow>
     length parent \<le> length child \<and>
     (\<forall>d. 1 \<le> d \<and> d \<le> length parent \<longrightarrow> position_ok parent child d)"
  by (auto simp: IsParentOf_def IsParentOf_loop_iff)

text \<open>The two index expressions of the loop body stay in range, so the loop cannot panic.\<close>

lemma IsParentOf_indices_in_range:
  "1 \<le> offset \<Longrightarrow> offset \<le> length parent \<Longrightarrow> length parent \<le> length child \<Longrightarrow>
     length parent - offset < length parent \<and> length child - offset < length child"
  by arith

text \<open>
  Claim C3. For all stacks \<open>parent\<close> and \<open>child\<close>, \<open>IsParentOf parent child\<close> is true
  exactly when the child has at least as many frames as the parent and, at every
  distance \<open>d\<close> from the outer end, from 1 up to the length of the parent, the function
  and the file of the parent's frame equal those of the child's frame at the same
  distance from its own outer end, the lines are equal when \<open>d\<close> is not the parent's
  innermost frame, and at the parent's innermost frame the parent's line is greater
  than or equal to the child's.
\<close>

theorem IsParentOf_characterisation:
  "IsParentOf parent child \<longleftrightarrow>
     length parent \<le> length child \<and>
     (\<forall>d \<in> {1..length parent}.
        Function (parent ! (length parent - d)) = Function (child ! (length child - d)) \<and>
        File (parent ! (length parent - d)) = File (child ! (length child - d)) \<and>
        (if d = length parent
         then Line (parent ! (length parent - d)) \<ge> Line (child ! (length child - d))
         else Line (parent ! (length parent - d)) = Line (child ! (length child - d))))"
  unfolding IsParentOf_iff position_ok_def by auto

theorem IsParentOf_characterisation_witness:
  "IsParentOf scenario_parent scenario_child \<and> \<not> IsParentOf scenario_child scenario_parent"
  using IsParentOf_characterisation [of scenario_parent scenario_child]
    IsParentOf_characterisation [of scenario_child scenario_parent]
  by (simp add: scenario_parent_def scenario_child_def)

lemma IsParentOf_frames_eq:
  assumes ab: "IsParentOf a b" and ba: "IsParentOf b a" and i: "i < length a"
  shows "a ! i = b ! i"
proof -
  have len: "length a = length b"
    using ab ba by (simp add: IsParentOf_iff)
  define d where "d = length a - i"
  have d: "1 \<le> d" "d \<le> length a" "length a - d = i" "length b - d = i"
    using i len by (auto simp: d_def)
  have p1: "position_ok a b d" using ab d by (simp add: IsParentOf_iff)
  have p2: "position_ok b a d" using ba d len by (simp add: IsParentOf_iff)
  have "Function (a ! i) = Function (b ! i)" "File (a ! i) = File (b ! i)"
    using p1 d by (simp_all add: position_ok_def)
  moreover have "Line (a ! i) = Line (b ! i)"
    using p1 p2 d len by (auto simp: position_ok_def split: if_splits)
  ultimately show ?thesis by simp
qed

lemma IsParentOf_refl: "IsParentOf a a"
  by (simp add: IsParentOf_iff position_ok_def)

text \<open>
  Claim C9. For all stacks \<open>a\<close> and \<open>b\<close>: if \<open>IsParentOf a b\<close> and \<open>IsParentOf b a\<close> both
  hold, then \<open>a\<close> and \<open>b\<close> are equal frame for frame, a frame being its function, file
  and line.
\<close>

theorem IsParentOf_antisym:
  assumes ab: "IsParentOf a b" and ba: "IsParentOf b a"
  shows "a = b"
proof (rule nth_equalityI)
  show "length a = length b" using ab ba by (simp add: IsParentOf_iff)
next
  fix i assume "i < length a"
  with ab ba show "a ! i = b ! i" by (rule IsParentOf_frames_eq)
qed

theorem IsParentOf_antisym_witness:
  "IsParentOf scenario_parent (tl scenario_child) \<and>
   IsParentOf (tl scenario_child) scenario_parent \<and>
   scenario_parent = tl scenario_child"
proof -
  have 1: "IsParentOf scenario_parent (tl scenario_child)"
    by (simp add: scenario_parent_def scenario_child_def IsParentOf_refl)
  have 2: "IsParentOf (tl scenario_child) scenario_parent"
    by (simp add: scenario_parent_def scenario_child_def IsParentOf_refl)
  show ?thesis using 1 2 IsParentOf_antisym [OF 1 2] by simp
qed

section \<open>Properties of the wrapping engine\<close>

lemma new_Some:
  "\<exists>r. new rt (Some e) k force ns =
          (fst (selectStacks rt k force ns (fst (walk (Some e) [] Map.empty))), Some r) \<and>
       Err r = (case e of StackErrorPtr serr \<Rightarrow> Err serr | OtherError msg tr w \<Rightarrow> Some e) \<and>
       StackTraces r =
         distinctStacks (snd (selectStacks rt k force ns (fst (walk (Some e) [] Map.empty)))) \<and>
       MetaFields r = snd (walk (Some e) [] Map.empty)"
  by (cases e) (auto simp: new_def Let_def split: prod.splits)

lemma callEntry_stores:
  assumes "flattened e"
  shows "\<exists>r. snd (callEntry rt c e) = Some r \<and>
           Err r = (case entryArgument c e of
                      StackErrorPtr serr \<Rightarrow> Err serr
                    | OtherError msg tr w \<Rightarrow> Some (entryArgument c e)) \<and>
           \<not> isStackError (Err r)"
proof -
  have fl: "flattened (entryArgument c e)"
    using assms by (cases c) (simp_all add: entryArgument_def flattened_def fmt_Errorf_def)
  have call: "\<exists>k force ns. callEntry rt c e = new rt (Some (entryArgument c e)) k force ns"
    by (cases c) (auto simp add: entryArgument_def Wrap_def WrapWithFrameSkips_def
        WrapWithStack_def WrapWithoutExtraStack_def WrapWithFrameSkipsWithoutExtraStack_def
        FromRecover_def Errorf_def)
  then obtain k force ns where c: "callEntry rt c e = new rt (Some (entryArgument c e)) k force ns"
    by blast
  obtain r where r:
    "new rt (Some (entryArgument c e)) k force ns =
       (fst (selectStacks rt k force ns (fst (walk (Some (entryArgument c e)) [] Map.empty))), Some r)"
    "Err r = (case entryArgument c e of
                StackErrorPtr serr \<Rightarrow> Err serr
              | OtherError msg tr w \<Rightarrow> Some (entryArgument c e))"
    using new_Some [of rt "entryArgument c e" k force ns] by blast
  have "\<not> isStackError (Err r)"
    using fl r(2) by (cases "entryArgument c e") (auto simp: flattened_def)
  then show ?thesis using c r by simp
qed

text \<open>
  Claim C2, as amended. For every error value that satisfies the lifecycle invariant
  itself (it is no wrapped error, or it is a wrapped error whose inner error is not a
  wrapped error), and for every non-empty sequence of nested calls of the entry points
  \<open>Wrap\<close>, \<open>WrapWithFrameSkips\<close>, \<open>WrapWithStack\<close>, \<open>WrapWithoutExtraStack\<close>,
  \<open>WrapWithFrameSkipsWithoutExtraStack\<close>, \<open>Errorf\<close> and \<open>FromRecover\<close>, the calls return a
  wrapped error whose inner \<open>Err\<close> is not a wrapped error: with \<open>prev\<close> the error that
  the last call was given, when the error handed to the engine is a wrapped error the
  engine stores that value's own inner error, and otherwise it stores the error handed
  to it.
\<close>

theorem nested_wrapping_flattened:
  "calls \<noteq> [] \<Longrightarrow> flattened e \<Longrightarrow>
     \<exists>prev r. nestedCalls (butlast calls) e = Some prev \<and>
        nestedCalls calls e = Some (StackErrorPtr r) \<and>
        Err r = (case entryArgument (snd (last calls)) prev of
                   StackErrorPtr serr \<Rightarrow> Err serr
                 | OtherError msg tr w \<Rightarrow> Some (entryArgument (snd (last calls)) prev)) \<and>
        \<not> isStackError (Err r)"
proof (induction calls arbitrary: e)
  case Nil
  then show ?case by simp
next
  case (Cons a calls)
  obtain rt c where a: "a = (rt, c)" by (cases a)
  obtain r where r: "snd (callEntry rt c e) = Some r"
    "Err r = (case entryArgument c e of
                StackErrorPtr serr \<Rightarrow> Err serr
              | OtherError msg tr w \<Rightarrow> Some (entryArgument c e))"
    "\<not> isStackError (Err r)"
    using callEntry_stores [OF Cons.prems(2)] by blast
  show ?case
  proof (cases "calls = []")
    case True
    have l: "snd (last (a # calls)) = c" "butlast (a # calls) = []"
      by (simp_all add: True a)
    show ?thesis unfolding l using r by (simp add: True a)
  next
    case False
    have l: "snd (last (a # calls)) = snd (last calls)"
      "butlast (a # calls) = a # butlast calls"
      using False by simp_all
    have "flattened (StackErrorPtr r)" using r(3) by (simp add: flattened_def)
    from Cons.IH [OF False this] show ?thesis unfolding l using r(1) by (simp add: a)
  qed
qed

theorem nested_wrapping_flattened_witness:
  "[(mainRuntime, CallWrap), (mainRuntime, CallWrapWithoutExtraStack)] \<noteq> [] \<and>
   flattened boom \<and>
   (\<exists>r. nestedCalls [(mainRuntime, CallWrap), (mainRuntime, CallWrapWithoutExtraStack)] boom
          = Some (StackErrorPtr r) \<and> Err r = Some boom \<and> \<not> isStackError (Err r))"
proof -
  have f: "flattened boom" by (simp add: flattened_def boom_def)
  have w: "snd (Wrap mainRuntime (Some boom)) = Some wrappedBoom"
    by (simp add: Wrap_def new_def boom_def wrappedBoom_def selectStacks_def distinctStacks_def
        StackTraceWithSkippedFrames_def mainRuntime_def)
  show ?thesis
    using f w nested_wrapping_flattened [OF _ f,
        of "[(mainRuntime, CallWrap), (mainRuntime, CallWrapWithoutExtraStack)]"]
    by (auto simp add: entryArgument_def wrappedBoom_def)
qed

text \<open>
  The claim C2 as stated, for every error value, fails: \<open>SetError\<close> makes a wrapped
  error that holds a wrapped error, and wrapping that value stores the inner wrapped
  error unchanged.
\<close>

theorem wrap_of_nested_not_flattened:
  "map_option (\<lambda>r. isStackError (Err r))
     (snd (Wrap mainRuntime
        (Some (StackErrorPtr (SetError wrappedBoom (Some (StackErrorPtr wrappedBoom)))))))
   = Some True"
  by (simp add: Wrap_def new_def SetError_def selectStacks_def distinctStacks_def
      StackTraceWithSkippedFrames_def wrappedBoom_def mainRuntime_def)

text \<open>
  Claim C10. \<open>SetError\<close> stores the error it is given as it is, whatever it is: when
  that error is a wrapped error, the \<open>Err\<close> field afterwards is a wrapped error, so
  the invariant that the constructors keep is not kept by \<open>SetError\<close>.
\<close>

theorem SetError_stores_unconditionally:
  "Err (SetError e err) = err \<and>
   isStackError (Err (SetError e (Some (StackErrorPtr w)))) \<and>
   \<not> flattened (StackErrorPtr (SetError e (Some (StackErrorPtr w)))) \<and>
   Err (SetError e None) = None"
  by (simp add: SetError_def flattened_def)

text \<open>
  Claim C7. For every non-nil error being wrapped, with \<open>walked\<close> the stacks accumulated
  by the chain walk: if the caller supplied explicit stacks, no capture is made and they
  stand in front of \<open>walked\<close>; otherwise, if \<open>walked\<close> is empty or a fresh capture is
  forced, exactly one capture is made and the captured stack stands in front of
  \<open>walked\<close>; otherwise no capture is made and \<open>walked\<close> is used as it is, which is the
  case of \<open>WrapWithoutExtraStack\<close> on an error that has a stack. The selected stacks
  then pass through the removal of parents when there is more than one of them.
\<close>

theorem new_stack_selection:
  assumes "walked = fst (walk (Some e) [] Map.empty)"
  shows
   "(newStacks \<noteq> [] \<longrightarrow>
       fst (new rt (Some e) skippedFrames force newStacks) = [] \<and>
       map_option StackTraces (snd (new rt (Some e) skippedFrames force newStacks))
         = Some (distinctStacks (newStacks @ walked))) \<and>
    (newStacks = [] \<and> (walked = [] \<or> force) \<longrightarrow>
       fst (new rt (Some e) skippedFrames force newStacks) = [1 + skippedFrames] \<and>
       map_option StackTraces (snd (new rt (Some e) skippedFrames force newStacks))
         = Some (distinctStacks (StackTraceWithSkippedFrames rt (1 + skippedFrames) # walked))) \<and>
    (newStacks = [] \<and> walked \<noteq> [] \<and> \<not> force \<longrightarrow>
       fst (new rt (Some e) skippedFrames force newStacks) = [] \<and>
       map_option StackTraces (snd (new rt (Some e) skippedFrames force newStacks))
         = Some (distinctStacks walked)) \<and>
    (walked \<noteq> [] \<longrightarrow>
       fst (WrapWithoutExtraStack rt (Some e)) = [] \<and>
       map_option StackTraces (snd (WrapWithoutExtraStack rt (Some e)))
         = Some (distinctStacks walked))"
proof -
  obtain r where r:
    "new rt (Some e) skippedFrames force newStacks =
       (fst (selectStacks rt skippedFrames force newStacks walked), Some r)"
    "StackTraces r = distinctStacks (snd (selectStacks rt skippedFrames force newStacks walked))"
    using new_Some [of rt e skippedFrames force newStacks] assms by blast
  obtain r' where r':
    "new rt (Some e) 1 False [] = (fst (selectStacks rt 1 False [] walked), Some r')"
    "StackTraces r' = distinctStacks (snd (selectStacks rt 1 False [] walked))"
    using new_Some [of rt e 1 False "[]"] assms by blast
  show ?thesis
    using r r' by (auto simp add: selectStacks_def WrapWithoutExtraStack_def)
qed

theorem new_stack_selection_witness:
  "fst (WrapWithoutExtraStack mainRuntime (Some (StackErrorPtr wrappedBoom))) = [] \<and>
   map_option StackTraces (snd (WrapWithoutExtraStack mainRuntime (Some (StackErrorPtr wrappedBoom))))
     = Some [[\<lparr>Function = ''main.main'', File = ''main.go'', Line = 7\<rparr>]] \<and>
   fst (new mainRuntime (Some boom) 1 False []) = [2] \<and>
   map_option StackTraces (snd (new mainRuntime (Some boom) 1 False []))
     = Some [[\<lparr>Function = ''main.main'', File = ''main.go'', Line = 7\<rparr>]] \<and>
   fst (new mainRuntime (Some boom) 1 True [scenario_child]) = [] \<and>
   map_option StackTraces (snd (new mainRuntime (Some boom) 1 True [scenario_child]))
     = Some [scenario_child]"
proof -
  have w1: "[[\<lparr>Function = ''main.main'', File = ''main.go'', Line = 7\<rparr>]]
             = fst (walk (Some (StackErrorPtr wrappedBoom)) [] Map.empty)"
    by (simp add: wrappedBoom_def)
  have w2: "[] = fst (walk (Some boom) [] Map.empty)"
    by (simp add: boom_def)
  show ?thesis
    using new_stack_selection [OF w1, of "[]" mainRuntime 1 False]
      new_stack_selection [OF w2, of "[]" mainRuntime 1 False]
      new_stack_selection [OF w2, of "[scenario_child]" mainRuntime 1 True]
    by (simp add: distinctStacks_def StackTraceWithSkippedFrames_def mainRuntime_def)
qed

section \<open>Properties of formatting and parsing\<close>

declare Stack_Format_loop.simps [simp del] Stacks_Format_loop.simps [simp del]

lemma joinWith_Cons: "joinWith sep (x # xs) = (if xs = [] then x else x @ sep @ joinWith sep xs)"
  by (cases xs) simp_all

lemma Stack_Format_loop_eq:
  "i \<le> length ts \<Longrightarrow>
     Stack_Format_loop ts i res = res @ joinWith [newline] (map frameText (drop i ts))"
proof (induction ts i res rule: Stack_Format_loop.induct)
  case (1 ts i res)
  show ?case
  proof (cases "i < length ts")
    case False
    with "1.prems" show ?thesis by (subst Stack_Format_loop.simps) simp
  next
    case True
    have d: "drop i ts = ts ! i # drop (Suc i) ts"
      using True by (simp add: Cons_nth_drop_Suc)
    have e: "(drop (Suc i) ts = []) = (Suc i = length ts)"
      using True by auto
    have c: "(int i \<noteq> int (length ts) - 1) = (Suc i \<noteq> length ts)"
      by auto
    show ?thesis
      using True "1.IH" [OF True refl refl]
      by (subst Stack_Format_loop.simps) (simp add: Let_def d joinWith_Cons e c)
  qed
qed

lemma Stack_Format_eq: "Stack_Format s = joinWith [newline] (map frameText (trimStack s))"
  by (simp add: Stack_Format_def Stack_Format_loop_eq)

lemma Stacks_Format_loop_eq:
  "i \<le> length s \<Longrightarrow>
     Stacks_Format_loop s i ret =
       ret @ joinWith [newline] (map (\<lambda>st. Stack_Format st @ [newline] @ stackDivider) (drop i s))"
proof (induction s i ret rule: Stacks_Format_loop.induct)
  case (1 s i ret)
  show ?case
  proof (cases "i < length s")
    case False
    with "1.prems" show ?thesis by (subst Stacks_Format_loop.simps) simp
  next
    case True
    have d: "drop i s = s ! i # drop (Suc i) s"
      using True by (simp add: Cons_nth_drop_Suc)
    have e: "(drop (Suc i) s = []) = (Suc i = length s)"
      using True by auto
    have c: "(int i \<noteq> int (length s) - 1) = (Suc i \<noteq> length s)"
      by auto
    show ?thesis
    proof (cases "Suc i = length s")
      case last: True
      then show ?thesis
        using True "1.IH" [OF True refl refl]
        by (subst Stacks_Format_loop.simps) (simp add: Let_def d joinWith_Cons e c)
    next
      case more: False
      then show ?thesis
        using True "1.IH" [OF True refl refl]
        by (subst Stacks_Format_loop.simps) (simp add: Let_def d joinWith_Cons e c)
    qed
  qed
qed

lemma trimStack_loop_eq:
  "n \<le> length s \<Longrightarrow>
     take (trimStack_loop s n) s
       = rev (dropWhile (\<lambda>fr. HasPrefix (Function fr) ''runtime.'') (rev (take n s)))"
proof (induction n)
  case 0
  then show ?case by simp
next
  case (Suc n)
  then have "take (Suc n) s = take n s @ [s ! n]"
    by (simp add: take_Suc_conv_app_nth)
  then show ?case using Suc by simp
qed

text \<open>
  What the two formatting loops build: one divider line and a newline, then, in the
  order of the stack set, each stack's listing followed by a newline and one divider
  line, with a single newline after every divider but the last. A stack's listing holds
  the frames left after the trailing frames whose function starts with \<open>runtime.\<close>
  are trimmed, each as the function, a newline, a tab and \<open>file:line\<close>, with a newline
  between frames.
\<close>

lemma Stacks_Format_layout:
  "Stacks_Format ss =
     stackDivider @ [newline] @
     joinWith [newline] (map (\<lambda>s. Stack_Format s @ [newline] @ stackDivider) ss) \<and>
   Stack_Format s = joinWith [newline] (map frameText (trimStack s)) \<and>
   trimStack s = rev (dropWhile (\<lambda>fr. HasPrefix (Function fr) ''runtime.'') (rev s)) \<and>
   frameText fr = Function fr @ [newline, tab] @ File fr @ '':'' @ fmt_d (Line fr)"
  by (simp add: Stacks_Format_def Stacks_Format_loop_eq Stack_Format_eq trimStack_def
      trimStack_loop_eq frameText_def)

text \<open>
  Claim C5, on the code: for a set of two one-frame stacks \<open>Stacks.Format\<close> writes three
  dividers, not a pair for each stack, and no blank line between the stacks, where the
  claim's layout has a pair of dividers for each stack and a blank line between them.
  \<open>ParseStacks\<close>, which makes one stack of every block between blank lines, reads the
  two stacks back from the claim's layout.
\<close>

theorem Stacks_Format_no_blank_line:
  "Stacks_Format [[frameF], [frameG]] =
     ''======================================'' @ [newline] @
     ''f'' @ [newline, tab] @ ''a.go:10'' @ [newline] @
     ''======================================'' @ [newline] @
     ''g'' @ [newline, tab] @ ''b.go:20'' @ [newline] @
     ''======================================'' \<and>
   spec_Stacks_Format [[frameF], [frameG]] =
     ''======================================'' @ [newline] @
     ''f'' @ [newline, tab] @ ''a.go:10'' @ [newline] @
     ''======================================'' @ [newline, newline] @
     ''======================================'' @ [newline] @
     ''g'' @ [newline, tab] @ ''b.go:20'' @ [newline] @
     ''======================================'' \<and>
   Stacks_Format [[frameF], [frameG]] \<noteq> spec_Stacks_Format [[frameF], [frameG]] \<and>
   ParseStacks (\<lambda>_. (False, [])) (spec_Stacks_Format [[frameF], [frameG]])
     = [[frameF], [frameG]]"
  by code_simp

lemma parseBlocks_append: "parseBlocks blocks acc = acc @ parseBlocks blocks []"
proof (induction blocks arbitrary: acc)
  case Nil
  then show ?case by simp
next
  case (Cons b blocks)
  show ?case
    using Cons.IH [of acc] Cons.IH [of "acc @ [map frameOfMatch (FindAllStringSubmatch consoleStackRegexp b)]"]
      Cons.IH [of "[map frameOfMatch (FindAllStringSubmatch consoleStackRegexp b)]"]
    by (simp add: Let_def)
qed

text \<open>
  Claim C8, as amended. \<open>ParseStacks\<close> accepts the structured decode exactly when the
  decode succeeds, the decoded set has a first stack, that stack has a first frame, and
  the file of that first frame is not empty. When it accepts, it returns the decoded
  set as decoded. When it does not, the console-format parse of the text runs and the
  stacks it finds end the result.
\<close>

theorem ParseStacks_json_gate:
  "(jsonAccepted (json_Unmarshal s) \<longleftrightarrow>
      fst (json_Unmarshal s) \<and>
      (\<exists>fr frs ss. snd (json_Unmarshal s) = (fr # frs) # ss \<and> File fr \<noteq> [])) \<and>
   (jsonAccepted (json_Unmarshal s) \<longrightarrow> ParseStacks json_Unmarshal s = snd (json_Unmarshal s)) \<and>
   (\<not> jsonAccepted (json_Unmarshal s) \<longrightarrow> suffix (consoleStacks s) (ParseStacks json_Unmarshal s))"
proof -
  obtain ok stacks where r: "json_Unmarshal s = (ok, stacks)" by (cases "json_Unmarshal s")
  have 1: "jsonAccepted (ok, stacks) \<longleftrightarrow> ok \<and> (\<exists>fr frs ss. stacks = (fr # frs) # ss \<and> File fr \<noteq> [])"
  proof (cases stacks)
    case Nil
    then show ?thesis by (simp add: jsonAccepted_def)
  next
    case (Cons st ss)
    then show ?thesis by (cases st) (simp_all add: jsonAccepted_def)
  qed
  have 2: "jsonAccepted (ok, stacks) \<Longrightarrow> ParseStacks json_Unmarshal s = stacks"
    using r by (simp add: ParseStacks_def Let_def)
  have 3: "\<not> jsonAccepted (ok, stacks) \<Longrightarrow> suffix (consoleStacks s) (ParseStacks json_Unmarshal s)"
    using r parseBlocks_append [of "Split (normalizeLineEndings s) [newline, newline]" stacks]
    by (simp add: ParseStacks_def Let_def consoleStacks_def suffix_def)
  show ?thesis using r 1 2 3 by simp
qed

theorem ParseStacks_json_gate_witness:
  \<open>ParseStacks (\<lambda>_. (True, [[frameF]])) ''[[{"function":"f","file":"a.go","line":10}]]''
     = [[frameF]] \<and>
   suffix (consoleStacks (''f'' @ [newline, tab] @ ''a.go:10''))
     (ParseStacks (\<lambda>_. (False, [])) (''f'' @ [newline, tab] @ ''a.go:10''))\<close>
  using
    ParseStacks_json_gate [of \<open>\<lambda>_. (True, [[frameF]])\<close>
      \<open>''[[{"function":"f","file":"a.go","line":10}]]''\<close>]
    ParseStacks_json_gate [of \<open>\<lambda>_. (False, [])\<close> \<open>''f'' @ [newline, tab] @ ''a.go:10''\<close>]
  by (simp add: jsonAccepted_def frameF_def)

text \<open>
  The claim C8 as stated fails: a decoded set whose first stack is empty and whose
  second stack has a frame with a file meets the specification's condition, yet the
  code does not accept it, and goes on to read a stack out of the text with the
  console pattern.
\<close>

theorem json_gate_reads_first_frame_only:
  \<open>spec_jsonAccepted (True, [[], [frameF]]) \<and>
   \<not> jsonAccepted (True, [[], [frameF]]) \<and>
   ParseStacks (\<lambda>_. (True, [[], [frameF]]))
     (''[[],[{"function":"f","file":"a.go",'' @ [newline] @ '' "line":10'' @ [newline] @ ''}]]'')
   = [[], [frameF],
      [\<lparr>Function = ''[[],[{"function":"f","file":"a.go",'', File = ''"line"'', Line = 10\<rparr>]]\<close>
  by code_simp

text \<open>
  When the gate does not accept and the console pattern matches in no block, the result
  is whatever the decode left in \<^verbatim>\<open>stacks\<close>: the empty set after a syntax error, which
  leaves the variable as it was.
\<close>

lemma parseBlocks_no_match:
  "list_all (\<lambda>block. FindAllStringSubmatch consoleStackRegexp block = []) blocks \<Longrightarrow>
     parseBlocks blocks stacks = stacks"
  by (induction blocks arbitrary: stacks) (simp_all add: Let_def)

lemma ParseStacks_no_match:
  assumes "\<not> jsonAccepted (json_Unmarshal s)"
    and "list_all (\<lambda>block. FindAllStringSubmatch consoleStackRegexp block = [])
           (Split (normalizeLineEndings s) [newline, newline])"
  shows "ParseStacks json_Unmarshal s = snd (json_Unmarshal s)"
  using assms by (simp add: ParseStacks_def Let_def parseBlocks_no_match)

text \<open>
  Claim C6, on the code: for a text that decodes to a set the gate does not accept and
  in which the console pattern matches nothing, \<open>ParseStacks\<close> returns the decoded set
  that it has just refused, not the empty set. The variable \<^verbatim>\<open>stacks\<close> that
  \<^verbatim>\<open>json.Unmarshal\<close> filled is the one the console loop appends to and the function
  returns.
\<close>

theorem ParseStacks_returns_rejected_decode:
  \<open>\<not> jsonAccepted (True, [[\<lparr>Function = ''f'', File = [], Line = 0\<rparr>]]) \<and>
   FindAllStringSubmatch consoleStackRegexp ''[[{"function":"f"}]]'' = [] \<and>
   ParseStacks (\<lambda>_. (True, [[\<lparr>Function = ''f'', File = [], Line = 0\<rparr>]])) ''[[{"function":"f"}]]''
     = [[\<lparr>Function = ''f'', File = [], Line = 0\<rparr>]] \<and>
   \<not> jsonAccepted (True, [[]]) \<and>
   FindAllStringSubmatch consoleStackRegexp ''[[]]'' = [] \<and>
   ParseStacks (\<lambda>_. (True, [[]])) ''[[]]'' = [[]]\<close>
  by code_simp

text \<open>A set of one stack does come back from its human-readable form.\<close>

lemma Format_then_ParseStacks_one_stack:
  "ParseStacks (\<lambda>_. (False, [])) (Stacks_Format [scenario_child]) = [scenario_child]"
  by code_simp

text \<open>
  Claim C4, on the code: the human-readable form of a set of two one-frame stacks has
  no blank line, so \<open>ParseStacks\<close> reads it as one block and returns one stack of two
  frames, where the structured form holds two stacks of one frame each.
\<close>

theorem Format_then_ParseStacks_merges_stacks:
  "ParseStacks (\<lambda>_. (False, [])) (Stacks_Format [[frameF], [frameG]]) = [[frameF, frameG]] \<and>
   Stacks_json [[frameF], [frameG]] = JArray [JArray [jsonFrame frameF], JArray [jsonFrame frameG]] \<and>
   length (ParseStacks (\<lambda>_. (False, [])) (Stacks_Format [[frameF], [frameG]])) = 1"
  by code_simp

section \<open>Properties of the structured encoding of a wrapped error\<close>

text \<open>
  Claim C1, on the code: \<open>stackError.MarshalJSON\<close> returns for no wrapped error, since
  \<^verbatim>\<open>json.Marshal\<close> calls the method again on the same value; no encoding is produced.
  \<open>stackError.UnmarshalJSON\<close> returns only for a text that is not valid JSON, with an
  error.
\<close>

theorem stackError_MarshalJSON_never_returns:
  "stackError_MarshalJSON se = None \<and>
   stackError_UnmarshalJSON valid se data = (if valid data then None else Some (False, se))"
proof -
  have m: False if "stackError_MarshalJSON x = Some j" for x j
    by (rule stackError_MarshalJSON.raw_induct [where P = "\<lambda>_ _. False", OF _ that])
       (auto simp add: json_Marshal_Marshaler_def)
  have u: "\<not> valid d" if "stackError_UnmarshalJSON valid x d = Some y" for x d y
    by (rule stackError_UnmarshalJSON.raw_induct [where P = "\<lambda>v _ d _. \<not> v d", OF _ that])
       (simp add: json_Unmarshal_Unmarshaler_def split: if_splits, blast)
  have "stackError_MarshalJSON se = None"
    using m by (cases "stackError_MarshalJSON se") auto
  moreover have "valid data \<Longrightarrow> stackError_UnmarshalJSON valid se data = None"
    using u by (cases "stackError_UnmarshalJSON valid se data") auto
  moreover have "\<not> valid data \<Longrightarrow> stackError_UnmarshalJSON valid se data = Some (False, se)"
    by (subst stackError_UnmarshalJSON.simps) (simp add: json_Unmarshal_Unmarshaler_def)
  ultimately show ?thesis by simp
qed

end
